theory Spec2Isabelle
  imports Main "HOL-Library.Char_ord" "HOL-Library.List_Lexorder"
begin

section \<open>The input snapshot\<close>

text \<open>
  The mapper reads one query result (\<open>AllRelevantEntitiesQuery\<close>). Only the fields the
  mapper touches are modelled. Every entity carries the four block/timestamp fields;
  they are the parent record of the entities below. The subgraph delivers its numeric
  scalars as decimal strings; a field holds here the integer such a string denotes, so
  \<open>BigInt(s)\<close> is the identity and \<open>Number(s)\<close> is the finite number of that value.
\<close>

record stamps =
  createdAtBlockNumber :: int
  createdAtTimestamp :: int
  updatedAtBlockNumber :: int
  updatedAtTimestamp :: int

record token =
  token_id :: string
  symbol :: string

record account =
  account_id :: string
  isSuperApp :: bool

record pool = stamps +
  pool_id :: string
  pool_token :: token
  flowRate :: int
  totalUnits :: int

record poolMember = stamps +
  member_pool :: pool
  member_account :: account
  units :: int

record poolDistributor = stamps +
  distributor_pool :: pool
  distributor_account :: account
  distributor_flowRate :: int

record stream = stamps +
  receiver :: account
  sender :: account
  stream_token :: token
  currentFlowRate :: int

record selectedAccount = stamps +
  selected_account_id :: string
  selected_isSuperApp :: bool
  accountTokenSnapshots :: "stamps list"

record selectedPool = stamps +
  selected_pool_id :: string
  selected_poolMembers :: "poolMember list"
  selected_poolDistributors :: "poolDistributor list"

record block =
  number :: int
  timestamp :: "int option"

text \<open>\<open>meta\<close> is the query's \<open>_meta\<close>: \<open>None\<close> when the head-block metadata is absent.\<close>

record snapshot =
  selectedAccounts :: "selectedAccount list"
  selectedPools :: "selectedPool list"
  poolMembers :: "poolMember list"
  poolDistributors :: "poolDistributor list"
  streams :: "stream list"
  meta :: "block option"

section \<open>JavaScript values the mapper computes with\<close>

text \<open>
  A JavaScript number as the node builder uses it: a finite integer value, or one of the
  two infinities that \<open>Math.min()\<close> and \<open>Math.max()\<close> return on no arguments.
\<close>

datatype jsnumber = NegInf | Num int | PosInf

fun num_min :: "jsnumber \<Rightarrow> jsnumber \<Rightarrow> jsnumber" where
  "num_min NegInf y = NegInf"
| "num_min x NegInf = NegInf"
| "num_min PosInf y = y"
| "num_min x PosInf = x"
| "num_min (Num a) (Num b) = Num (min a b)"

fun num_max :: "jsnumber \<Rightarrow> jsnumber \<Rightarrow> jsnumber" where
  "num_max PosInf y = PosInf"
| "num_max x PosInf = PosInf"
| "num_max NegInf y = y"
| "num_max x NegInf = x"
| "num_max (Num a) (Num b) = Num (max a b)"

definition Math_min :: "jsnumber list \<Rightarrow> jsnumber" where
  "Math_min xs = foldr num_min xs PosInf"

definition Math_max :: "jsnumber list \<Rightarrow> jsnumber" where
  "Math_max xs = foldr num_max xs NegInf"

definition Number :: "int \<Rightarrow> jsnumber" where
  "Number n = Num n"

text \<open>
  \<open>a ?? b\<close>: the right operand is taken only when the left one is \<open>null\<close> or
  \<open>undefined\<close>, which \<open>None\<close> stands for.
\<close>

definition nullish_coalesce :: "'a option \<Rightarrow> 'a \<Rightarrow> 'a" where
  "nullish_coalesce a b = (case a of None \<Rightarrow> b | Some v \<Rightarrow> v)"

datatype error = TypeError | RangeError | InvalidAddressError

text \<open>
  \<open>xs.map(f)\<close> with a callback that may throw: the first exception ends the whole map.
\<close>

fun mapE :: "('a \<Rightarrow> error + 'b) \<Rightarrow> 'a list \<Rightarrow> error + 'b list" where
  "mapE f [] = Inr []"
| "mapE f (x # xs) =
     (case f x of
        Inl e \<Rightarrow> Inl e
      | Inr y \<Rightarrow> (case mapE f xs of Inl e \<Rightarrow> Inl e | Inr ys \<Rightarrow> Inr (y # ys)))"

text \<open>
  BigInt division: a zero divisor raises a RangeError, otherwise the quotient is
  rounded toward zero.
\<close>

definition bigint_div :: "int \<Rightarrow> int \<Rightarrow> error + int" where
  "bigint_div a b =
     (if b = 0 then Inl RangeError else Inr (sgn a * sgn b * (\<bar>a\<bar> div \<bar>b\<bar>)))"

text \<open>
  lodash \<open>groupBy\<close> followed by \<open>Object.entries\<close>: the groups in the order in which
  their keys first occur, each group in the order of the collection. (Object keys that are
  canonical array indices would be listed first; the keys used here are addresses and
  hyphen-joined ids, which are not.)
\<close>

fun push_group :: "string \<Rightarrow> 'a \<Rightarrow> (string \<times> 'a list) list \<Rightarrow> (string \<times> 'a list) list" where
  "push_group k x [] = [(k, [x])]"
| "push_group k x ((k', g) # rest) =
     (if k' = k then (k', g @ [x]) # rest else (k', g) # push_group k x rest)"

definition groupBy :: "'a list \<Rightarrow> ('a \<Rightarrow> string) \<Rightarrow> (string \<times> 'a list) list" where
  "groupBy xs f = foldl (\<lambda>acc x. push_group (f x) x acc) [] xs"

text \<open>\<open>xs.join(sep)\<close> on a list of strings.\<close>

fun join :: "string list \<Rightarrow> string \<Rightarrow> string" where
  "join [] sep = []"
| "join [x] sep = x"
| "join (x # y # ys) sep = x @ sep @ join (y # ys) sep"

text \<open>\<open>xs.indexOf(x)\<close>: the first position of \<open>x\<close>, or \<open>-1\<close>.\<close>

fun indexOf :: "'a list \<Rightarrow> 'a \<Rightarrow> int" where
  "indexOf [] x = -1"
| "indexOf (y # ys) x =
     (if y = x then 0 else (let i = indexOf ys x in if i < 0 then -1 else i + 1))"

section \<open>Node builder\<close>

record partialNode =
  node_id :: string
  data_isPool :: "bool option"
  data_isSuperApp :: "bool option"
  data_isSelected :: "bool option"
  data_createdAtBlockNumber :: jsnumber
  data_createdAtTimestamp :: jsnumber
  data_updatedAtBlockNumber :: jsnumber
  data_updatedAtTimestamp :: jsnumber

record myNode = partialNode +
  data_chain :: int
  data_address :: string
  data_label :: string
  node_type :: string
  position :: "int \<times> int"

definition nodesFromAccounts :: "snapshot \<Rightarrow> partialNode list" where
  "nodesFromAccounts d = map (\<lambda>x.
     \<lparr> node_id = selected_account_id x,
       data_isPool = None,
       data_isSuperApp = Some (selected_isSuperApp x),
       data_isSelected = Some True,
       data_createdAtBlockNumber =
         nullish_coalesce
           (Some (Math_min (map (\<lambda>y. Number (createdAtBlockNumber y)) (accountTokenSnapshots x))))
           (Number (createdAtBlockNumber x)),
       data_createdAtTimestamp =
         nullish_coalesce
           (Some (Math_min (map (\<lambda>y. Number (createdAtTimestamp y)) (accountTokenSnapshots x))))
           (Number (createdAtTimestamp x)),
       data_updatedAtBlockNumber =
         nullish_coalesce
           (Some (Math_max (map (\<lambda>y. Number (updatedAtBlockNumber y)) (accountTokenSnapshots x))))
           (Number (updatedAtBlockNumber x)),
       data_updatedAtTimestamp =
         nullish_coalesce
           (Some (Math_max (map (\<lambda>y. Number (updatedAtTimestamp y)) (accountTokenSnapshots x))))
           (Number (updatedAtTimestamp x)) \<rparr>) (selectedAccounts d)"

definition nodesFromPools :: "snapshot \<Rightarrow> partialNode list" where
  "nodesFromPools d = concat (map (\<lambda>x.
     [\<lparr> node_id = selected_pool_id x,
        data_isPool = Some True,
        data_isSuperApp = None,
        data_isSelected = Some True,
        data_createdAtBlockNumber = Number (createdAtBlockNumber x),
        data_createdAtTimestamp = Number (createdAtTimestamp x),
        data_updatedAtBlockNumber = Number (updatedAtBlockNumber x),
        data_updatedAtTimestamp = Number (updatedAtTimestamp x) \<rparr>]) (selectedPools d))"

text \<open>A pool as it appears through a membership or a distributorship.\<close>

definition poolNode :: "pool \<Rightarrow> partialNode" where
  "poolNode p =
     \<lparr> node_id = pool_id p,
       data_isPool = Some True,
       data_isSuperApp = None,
       data_isSelected = None,
       data_createdAtBlockNumber = Number (createdAtBlockNumber p),
       data_createdAtTimestamp = Number (createdAtTimestamp p),
       data_updatedAtBlockNumber = Number (updatedAtBlockNumber p),
       data_updatedAtTimestamp = Number (updatedAtTimestamp p) \<rparr>"

text \<open>An account as it appears through a relation \<open>r\<close>: the stamps are the relation's.\<close>

definition accountNode :: "account \<Rightarrow> 'r stamps_scheme \<Rightarrow> partialNode" where
  "accountNode a r =
     \<lparr> node_id = account_id a,
       data_isPool = None,
       data_isSuperApp = Some (isSuperApp a),
       data_isSelected = None,
       data_createdAtBlockNumber = Number (createdAtBlockNumber r),
       data_createdAtTimestamp = Number (createdAtTimestamp r),
       data_updatedAtBlockNumber = Number (updatedAtBlockNumber r),
       data_updatedAtTimestamp = Number (updatedAtTimestamp r) \<rparr>"

definition allPoolMembers :: "snapshot \<Rightarrow> poolMember list" where
  "allPoolMembers d = poolMembers d @ concat (map selected_poolMembers (selectedPools d))"

definition allPoolDistributors :: "snapshot \<Rightarrow> poolDistributor list" where
  "allPoolDistributors d =
     poolDistributors d @ concat (map selected_poolDistributors (selectedPools d))"

definition nodesFromPoolMembers :: "snapshot \<Rightarrow> partialNode list" where
  "nodesFromPoolMembers d = concat (map (\<lambda>x.
     [poolNode (member_pool x), accountNode (member_account x) x]) (allPoolMembers d))"

definition nodesFromPoolDistributors :: "snapshot \<Rightarrow> partialNode list" where
  "nodesFromPoolDistributors d = concat (map (\<lambda>x.
     [poolNode (distributor_pool x), accountNode (distributor_account x) x])
     (allPoolDistributors d))"

definition nodesFromStreams :: "snapshot \<Rightarrow> partialNode list" where
  "nodesFromStreams d = concat (map (\<lambda>x.
     [accountNode (receiver x) x, accountNode (sender x) x]) (streams d))"

text \<open>
  The candidates that are grouped. The source builds \<open>nodesFromPools\<close> as well and
  leaves it out of this list.
\<close>

definition nodesButRedundant :: "snapshot \<Rightarrow> partialNode list" where
  "nodesButRedundant d =
     nodesFromAccounts d @ nodesFromPoolMembers d @ nodesFromPoolDistributors d
       @ nodesFromStreams d"

text \<open>
  The callback over the groups. \<open>xs.some(p)\<close> is \<open>list_ex\<close>; a flag that is unset is
  falsy. Reading \<open>[0]\<close> of an empty group gives \<open>undefined\<close>, whose spread into the
  merged record raises a TypeError.
\<close>

definition truthy :: "bool option \<Rightarrow> bool" where
  "truthy b = (b = Some True)"

definition mergeNodes :: "partialNode list \<Rightarrow> error + partialNode" where
  "mergeNodes nodeFromDifferentSources =
     (case nodeFromDifferentSources of
        [] \<Rightarrow> Inl TypeError
      | root # rest \<Rightarrow>
          if length nodeFromDifferentSources = 1 then Inr root
          else Inr (root
            \<lparr> data_isPool := Some (list_ex (\<lambda>x. truthy (data_isPool x)) nodeFromDifferentSources),
              data_isSuperApp :=
                Some (list_ex (\<lambda>x. truthy (data_isSuperApp x)) nodeFromDifferentSources),
              data_isSelected :=
                Some (foldl (\<lambda>acc curr. acc \<or> truthy (data_isSelected curr)) False
                        nodeFromDifferentSources),
              data_createdAtBlockNumber :=
                Math_min (map data_createdAtBlockNumber nodeFromDifferentSources),
              data_createdAtTimestamp :=
                Math_min (map data_createdAtTimestamp nodeFromDifferentSources),
              data_updatedAtBlockNumber :=
                Math_max (map data_updatedAtBlockNumber nodeFromDifferentSources),
              data_updatedAtTimestamp :=
                Math_max (map data_updatedAtTimestamp nodeFromDifferentSources) \<rparr>))"

text \<open>
  \<open>getAddress\<close> (viem) and \<open>shortenHex\<close> are outside the module; they are parameters.
  \<open>getAddress\<close> returns \<open>None\<close> where viem throws on an invalid address.
\<close>

definition fullNode ::
  "(string \<Rightarrow> string option) \<Rightarrow> (string \<Rightarrow> string) \<Rightarrow> int \<Rightarrow> partialNode \<Rightarrow> error + myNode" where
  "fullNode getAddress shortenHex chain node =
     (case getAddress (node_id node) of
        None \<Rightarrow> Inl InvalidAddressError
      | Some address \<Rightarrow>
          Inr (partialNode.extend node
            \<lparr> data_chain = chain,
              data_address = address,
              data_label = shortenHex address,
              node_type = ''custom'',
              position = (0, 0) \<rparr>))"

definition uniqMergedNodes :: "snapshot \<Rightarrow> error + partialNode list" where
  "uniqMergedNodes d = mapE (\<lambda>(k, g). mergeNodes g) (groupBy (nodesButRedundant d) node_id)"

definition mapNodes ::
  "(string \<Rightarrow> string option) \<Rightarrow> (string \<Rightarrow> string) \<Rightarrow> int \<Rightarrow> snapshot \<Rightarrow> error + myNode list" where
  "mapNodes getAddress shortenHex chain d =
     (case uniqMergedNodes d of
        Inl e \<Rightarrow> Inl e
      | Inr merged \<Rightarrow> mapE (fullNode getAddress shortenHex chain) merged)"

section \<open>Edge builder\<close>

record partialEdge =
  edge_id :: string
  source :: string
  target :: string
  data_token :: token
  data_flowRate :: int

text \<open>\<open>something_length\<close> and \<open>something_index\<close> are \<open>data.something.length\<close> and
  \<open>data.something.index\<close>.\<close>

record myEdge = partialEdge +
  animated :: bool
  edge_type :: string
  something_length :: int
  something_index :: int

definition edgesFromPoolDistributors :: "snapshot \<Rightarrow> partialEdge list" where
  "edgesFromPoolDistributors d = concat (map (\<lambda>x.
     [\<lparr> edge_id = token_id (pool_token (distributor_pool x)) @ ''-''
                   @ account_id (distributor_account x) @ ''-'' @ pool_id (distributor_pool x),
        source = account_id (distributor_account x),
        target = pool_id (distributor_pool x),
        data_token = \<lparr> token_id = token_id (pool_token (distributor_pool x)),
                       symbol = symbol (pool_token (distributor_pool x)) \<rparr>,
        data_flowRate = distributor_flowRate x \<rparr>]) (allPoolDistributors d))"

text \<open>The flow rate of a membership edge: lines 284 to 288 of the source.\<close>

definition memberFlowRate :: "poolMember \<Rightarrow> error + int" where
  "memberFlowRate x =
     (if units x > 0
      then bigint_div (flowRate (member_pool x) * totalUnits (member_pool x)) (units x)
      else Inr 0)"

definition edgeFromPoolMember :: "poolMember \<Rightarrow> error + partialEdge" where
  "edgeFromPoolMember x =
     (case memberFlowRate x of
        Inl e \<Rightarrow> Inl e
      | Inr rate \<Rightarrow> Inr
          \<lparr> edge_id = token_id (pool_token (member_pool x)) @ ''-''
                      @ pool_id (member_pool x) @ ''-'' @ account_id (member_account x),
            source = pool_id (member_pool x),
            target = account_id (member_account x),
            data_token = \<lparr> token_id = token_id (pool_token (member_pool x)),
                           symbol = symbol (pool_token (member_pool x)) \<rparr>,
            data_flowRate = rate \<rparr>)"

definition edgesFromPoolMembers :: "snapshot \<Rightarrow> error + partialEdge list" where
  "edgesFromPoolMembers d = mapE edgeFromPoolMember (allPoolMembers d)"

definition edgesFromStreams :: "snapshot \<Rightarrow> partialEdge list" where
  "edgesFromStreams d = concat (map (\<lambda>x.
     [\<lparr> edge_id = token_id (stream_token x) @ ''-'' @ account_id (sender x) @ ''-''
                   @ account_id (receiver x),
        source = account_id (sender x),
        target = account_id (receiver x),
        data_token = \<lparr> token_id = token_id (stream_token x),
                       symbol = symbol (stream_token x) \<rparr>,
        data_flowRate = currentFlowRate x \<rparr>]) (streams d))"

definition edgesButRedundant :: "snapshot \<Rightarrow> error + partialEdge list" where
  "edgesButRedundant d =
     (case edgesFromPoolMembers d of
        Inl e \<Rightarrow> Inl e
      | Inr members \<Rightarrow> Inr (members @ edgesFromStreams d @ edgesFromPoolDistributors d))"

definition mergeEdges :: "partialEdge list \<Rightarrow> error + partialEdge" where
  "mergeEdges edgesFromDifferentSources =
     (case edgesFromDifferentSources of
        [] \<Rightarrow> Inl TypeError
      | root # rest \<Rightarrow>
          if length edgesFromDifferentSources = 1 then Inr root
          else Inr (root
            \<lparr> data_flowRate :=
                foldl (\<lambda>acc x. acc + data_flowRate x) 0 edgesFromDifferentSources \<rparr>))"

definition uniqEdges :: "snapshot \<Rightarrow> error + partialEdge list" where
  "uniqEdges d =
     (case edgesButRedundant d of
        Inl e \<Rightarrow> Inl e
      | Inr raw \<Rightarrow> mapE (\<lambda>(k, g). mergeEdges g) (groupBy raw edge_id))"

text \<open>
  The key of the unordered endpoint pair, \<open>[x.source, x.target].sort().join("-")\<close>;
  the default sort compares the strings code unit by code unit.
\<close>

definition pairKey :: "'r partialEdge_scheme \<Rightarrow> string" where
  "pairKey x = join (sort [source x, target x]) ''-''"

text \<open>
  The callback of the last map. \<open>edgesBetweenSameNodes[key]\<close> is a property lookup; on
  a missing key it is \<open>undefined\<close>, and reading \<open>.length\<close> of it raises a TypeError.
  \<open>indexOf\<close> compares by identity in the source and by value here: the edges it
  searches have pairwise different ids (lemma \<open>uniqEdges_distinct\<close>), so the two agree.
\<close>

definition fullEdge :: "(string \<times> partialEdge list) list \<Rightarrow> partialEdge \<Rightarrow> error + myEdge" where
  "fullEdge edgesBetweenSameNodes x =
     (let key = pairKey x in
      case map_of edgesBetweenSameNodes key of
        None \<Rightarrow> Inl TypeError
      | Some g \<Rightarrow>
          Inr (partialEdge.extend x
            \<lparr> animated = True,
              edge_type = ''floating'',
              something_length = int (length g),
              something_index = indexOf g x \<rparr>))"

definition mapEdges :: "snapshot \<Rightarrow> error + myEdge list" where
  "mapEdges d =
     (case uniqEdges d of
        Inl e \<Rightarrow> Inl e
      | Inr uniq \<Rightarrow> mapE (fullEdge (groupBy uniq pairKey)) uniq)"

section \<open>The mapper\<close>

datatype date = Date int | InvalidDate

text \<open>
  date-fns \<open>fromUnixTime\<close>: the date at that many seconds, held in milliseconds; an
  absent timestamp gives an invalid date, not an exception.
\<close>

definition fromUnixTime :: "int option \<Rightarrow> date" where
  "fromUnixTime t = (case t of None \<Rightarrow> InvalidDate | Some s \<Rightarrow> Date (s * 1000))"

record latestBlockInfo =
  latest_number :: jsnumber
  latest_timestamp :: date

record myMappedData =
  nodes :: "myNode list"
  edges :: "myEdge list"
  latestBlock :: "latestBlockInfo option"

text \<open>
  The object literal evaluates its properties in order: nodes, edges, then
  \<open>latestBlock\<close>. \<open>data._meta!\<close> is a compile-time assertion only; at run time the
  property read on an absent \<open>_meta\<close> raises a TypeError.
\<close>

definition dataMapper ::
  "(string \<Rightarrow> string option) \<Rightarrow> (string \<Rightarrow> string) \<Rightarrow> int \<Rightarrow> snapshot \<Rightarrow> error + myMappedData" where
  "dataMapper getAddress shortenHex chain d =
     (case mapNodes getAddress shortenHex chain d of
        Inl e \<Rightarrow> Inl e
      | Inr ns \<Rightarrow>
          (case mapEdges d of
             Inl e \<Rightarrow> Inl e
           | Inr es \<Rightarrow>
               (case meta d of
                  None \<Rightarrow> Inl TypeError
                | Some b \<Rightarrow> Inr
                    \<lparr> nodes = ns,
                      edges = es,
                      latestBlock = Some \<lparr> latest_number = Number (number b),
                                           latest_timestamp = fromUnixTime (timestamp b) \<rparr> \<rparr>)))"

section \<open>The ids of the contributing relations\<close>

text \<open>
  Every id that a selected account, a membership, a distributorship (flat or embedded in a
  selected pool) or a stream mentions as an endpoint. The id of a selected pool itself is
  not among them.
\<close>

definition relationIds :: "snapshot \<Rightarrow> string set" where
  "relationIds d =
     selected_account_id ` set (selectedAccounts d)
     \<union> (\<Union>x\<in>set (allPoolMembers d). {pool_id (member_pool x), account_id (member_account x)})
     \<union> (\<Union>x\<in>set (allPoolDistributors d).
          {pool_id (distributor_pool x), account_id (distributor_account x)})
     \<union> (\<Union>x\<in>set (streams d). {account_id (receiver x), account_id (sender x)})"

text \<open>
  What a merged node owes to the group \<open>g\<close> of candidates it was built from: the id
  of the first candidate, and each flag set exactly when some candidate sets it.
\<close>

definition merged_from :: "partialNode list \<Rightarrow> 'r partialNode_scheme \<Rightarrow> bool" where
  "merged_from g n \<longleftrightarrow>
     g \<noteq> [] \<and> node_id n = node_id (hd g)
     \<and> truthy (data_isPool n) = list_ex (\<lambda>x. truthy (data_isPool x)) g
     \<and> truthy (data_isSuperApp n) = list_ex (\<lambda>x. truthy (data_isSuperApp x)) g
     \<and> truthy (data_isSelected n) = list_ex (\<lambda>x. truthy (data_isSelected x)) g"

text \<open>
  The same for a merged edge: id and endpoints of the first candidate of its group, and the
  sum of the group's flow rates.
\<close>

definition merged_edge_from :: "partialEdge list \<Rightarrow> partialEdge \<Rightarrow> bool" where
  "merged_edge_from g m \<longleftrightarrow>
     g \<noteq> [] \<and> edge_id m = edge_id (hd g) \<and> source m = source (hd g) \<and> target m = target (hd g)
     \<and> data_flowRate m = sum_list (map data_flowRate g)"

text \<open>
  The finished edge of \<open>x\<close> written without the lookup: its group is the sublist of the
  deduplicated edges with the same pair key (lemma \<open>fullEdge_ok\<close>).
\<close>

definition parallelEdge :: "partialEdge list \<Rightarrow> partialEdge \<Rightarrow> myEdge" where
  "parallelEdge uniq x =
     partialEdge.extend x
       \<lparr> animated = True,
         edge_type = ''floating'',
         something_length = int (length (filter (\<lambda>y. pairKey y = pairKey x) uniq)),
         something_index = indexOf (filter (\<lambda>y. pairKey y = pairKey x) uniq) x \<rparr>"

section \<open>Example snapshots\<close>

definition tokenX :: token where
  "tokenX = \<lparr> token_id = ''0xt'', symbol = ''TKx'' \<rparr>"

definition accountA :: account where
  "accountA = \<lparr> account_id = ''0xa'', isSuperApp = False \<rparr>"

definition accountB :: account where
  "accountB = \<lparr> account_id = ''0xb'', isSuperApp = True \<rparr>"

text \<open>One stream from A to B at rate 100 and one from B to A at rate 30, same token.\<close>

definition streamAB :: stream where
  "streamAB =
     \<lparr> createdAtBlockNumber = 10, createdAtTimestamp = 1000,
       updatedAtBlockNumber = 20, updatedAtTimestamp = 2000,
       receiver = accountB, sender = accountA, stream_token = tokenX, currentFlowRate = 100 \<rparr>"

definition streamBA :: stream where
  "streamBA =
     \<lparr> createdAtBlockNumber = 11, createdAtTimestamp = 1100,
       updatedAtBlockNumber = 21, updatedAtTimestamp = 2100,
       receiver = accountA, sender = accountB, stream_token = tokenX, currentFlowRate = 30 \<rparr>"

definition headBlock :: block where
  "headBlock = \<lparr> number = 99, timestamp = Some 5000 \<rparr>"

definition emptySnapshot :: snapshot where
  "emptySnapshot =
     \<lparr> selectedAccounts = [], selectedPools = [], poolMembers = [], poolDistributors = [],
       streams = [], meta = None \<rparr>"

definition twoStreams :: snapshot where
  "twoStreams = emptySnapshot \<lparr> streams := [streamAB, streamBA], meta := Some headBlock \<rparr>"

text \<open>A pool with flow rate 1000 and 200 units in total; A holds 50 units, B holds none.\<close>

definition poolP :: pool where
  "poolP =
     \<lparr> createdAtBlockNumber = 5, createdAtTimestamp = 500,
       updatedAtBlockNumber = 25, updatedAtTimestamp = 2500,
       pool_id = ''0xp'', pool_token = tokenX, flowRate = 1000, totalUnits = 200 \<rparr>"

definition member50 :: poolMember where
  "member50 =
     \<lparr> createdAtBlockNumber = 6, createdAtTimestamp = 600,
       updatedAtBlockNumber = 26, updatedAtTimestamp = 2600,
       member_pool = poolP, member_account = accountA, units = 50 \<rparr>"

definition member0 :: poolMember where
  "member0 =
     \<lparr> createdAtBlockNumber = 7, createdAtTimestamp = 700,
       updatedAtBlockNumber = 27, updatedAtTimestamp = 2700,
       member_pool = poolP, member_account = accountB, units = 0 \<rparr>"

text \<open>The pool selected, with the membership of A both in the flat list and embedded.\<close>

definition selectedP :: selectedPool where
  "selectedP =
     \<lparr> createdAtBlockNumber = 5, createdAtTimestamp = 500,
       updatedAtBlockNumber = 25, updatedAtTimestamp = 2500,
       selected_pool_id = ''0xp'', selected_poolMembers = [member50],
       selected_poolDistributors = [] \<rparr>"

definition poolSnapshot :: snapshot where
  "poolSnapshot =
     emptySnapshot \<lparr> selectedPools := [selectedP], poolMembers := [member50, member0],
       meta := Some headBlock \<rparr>"

text \<open>A selected pool that no membership, distributorship or stream mentions.\<close>

definition lonelyPool :: selectedPool where
  "lonelyPool =
     \<lparr> createdAtBlockNumber = 8, createdAtTimestamp = 800,
       updatedAtBlockNumber = 28, updatedAtTimestamp = 2800,
       selected_pool_id = ''0xq'', selected_poolMembers = [],
       selected_poolDistributors = [] \<rparr>"

text \<open>A selected account with no per-token balance snapshots.\<close>

definition bareAccount :: selectedAccount where
  "bareAccount =
     \<lparr> createdAtBlockNumber = 100, createdAtTimestamp = 1000,
       updatedAtBlockNumber = 200, updatedAtTimestamp = 2000,
       selected_account_id = ''0xa'', selected_isSuperApp = False,
       accountTokenSnapshots = [] \<rparr>"

definition bareAccountSnapshot :: snapshot where
  "bareAccountSnapshot = emptySnapshot \<lparr> selectedAccounts := [bareAccount] \<rparr>"

text \<open>
  Account A selected, the two streams, the two memberships of pool P, and the selected pool
  that nothing else mentions.
\<close>

definition mixedSnapshot :: snapshot where
  "mixedSnapshot =
     twoStreams \<lparr> selectedAccounts := [bareAccount], selectedPools := [lonelyPool],
       poolMembers := [member50, member0] \<rparr>"

text \<open>
  A stand-in for viem's \<open>getAddress\<close>: it accepts \<open>0x\<close> followed by forty hex digits and
  nothing else. It returns the string as it is, which is the checksummed form of an address
  without letters, as the addresses below are.
\<close>

definition hexAddress :: "string \<Rightarrow> string option" where
  "hexAddress s =
     (if length s = 42 \<and> take 2 s = ''0x''
         \<and> list_all (\<lambda>c. c \<in> set ''0123456789abcdefABCDEF'') (drop 2 s)
      then Some s else None)"

definition address1 :: string where
  "address1 = ''0x1111111111111111111111111111111111111111''"

definition address2 :: string where
  "address2 = ''0x2222222222222222222222222222222222222222''"

definition address3 :: string where
  "address3 = ''0x3333333333333333333333333333333333333333''"

definition superToken :: token where
  "superToken = \<lparr> token_id = ''0x4444444444444444444444444444444444444444'', symbol = ''TKx'' \<rparr>"

definition holder1 :: account where
  "holder1 = \<lparr> account_id = address1, isSuperApp = False \<rparr>"

definition holder2 :: account where
  "holder2 = \<lparr> account_id = address2, isSuperApp = True \<rparr>"

text \<open>
  Two streams between valid addresses, one each way, and no head-block metadata.
\<close>

definition streamsNoMeta :: snapshot where
  "streamsNoMeta =
     \<lparr> selectedAccounts = [], selectedPools = [], poolMembers = [], poolDistributors = [],
       streams =
         [\<lparr> createdAtBlockNumber = 10, createdAtTimestamp = 1000,
            updatedAtBlockNumber = 20, updatedAtTimestamp = 2000,
            receiver = holder2, sender = holder1, stream_token = superToken,
            currentFlowRate = 100 \<rparr>,
          \<lparr> createdAtBlockNumber = 11, createdAtTimestamp = 1100,
            updatedAtBlockNumber = 21, updatedAtTimestamp = 2100,
            receiver = holder1, sender = holder2, stream_token = superToken,
            currentFlowRate = 30 \<rparr>],
       meta = None \<rparr>"

text \<open>One membership of 50 out of 200 units between valid addresses, no head-block metadata.\<close>

definition membershipNoMeta :: snapshot where
  "membershipNoMeta =
     \<lparr> selectedAccounts = [], selectedPools = [],
       poolMembers =
         [\<lparr> createdAtBlockNumber = 6, createdAtTimestamp = 600,
            updatedAtBlockNumber = 26, updatedAtTimestamp = 2600,
            member_pool =
              \<lparr> createdAtBlockNumber = 5, createdAtTimestamp = 500,
                updatedAtBlockNumber = 25, updatedAtTimestamp = 2500,
                pool_id = address3, pool_token = superToken, flowRate = 1000,
                totalUnits = 200 \<rparr>,
            member_account = holder1, units = 50 \<rparr>],
       poolDistributors = [], streams = [], meta = None \<rparr>"

text \<open>What the two builders return on these snapshots.\<close>

definition mixedNodes :: "myNode list" where
  "mixedNodes =
     [\<lparr> node_id = ''0xa'', data_isPool = Some False, data_isSuperApp = Some False,
        data_isSelected = Some True, data_createdAtBlockNumber = Num 6,
        data_createdAtTimestamp = Num 600, data_updatedAtBlockNumber = Num 26,
        data_updatedAtTimestamp = Num 2600, data_chain = 1, data_address = ''0xa'',
        data_label = ''0xa'', node_type = ''custom'', position = (0, 0) \<rparr>,
      \<lparr> node_id = ''0xp'', data_isPool = Some True, data_isSuperApp = Some False,
        data_isSelected = Some False, data_createdAtBlockNumber = Num 5,
        data_createdAtTimestamp = Num 500, data_updatedAtBlockNumber = Num 25,
        data_updatedAtTimestamp = Num 2500, data_chain = 1, data_address = ''0xp'',
        data_label = ''0xp'', node_type = ''custom'', position = (0, 0) \<rparr>,
      \<lparr> node_id = ''0xb'', data_isPool = Some False, data_isSuperApp = Some True,
        data_isSelected = Some False, data_createdAtBlockNumber = Num 7,
        data_createdAtTimestamp = Num 700, data_updatedAtBlockNumber = Num 27,
        data_updatedAtTimestamp = Num 2700, data_chain = 1, data_address = ''0xb'',
        data_label = ''0xb'', node_type = ''custom'', position = (0, 0) \<rparr>]"

definition mixedEdges :: "myEdge list" where
  "mixedEdges =
     [\<lparr> edge_id = ''0xt-0xp-0xa'', source = ''0xp'', target = ''0xa'',
        data_token = \<lparr> token_id = ''0xt'', symbol = ''TKx'' \<rparr>, data_flowRate = 4000,
        animated = True, edge_type = ''floating'', something_length = 1, something_index = 0 \<rparr>,
      \<lparr> edge_id = ''0xt-0xp-0xb'', source = ''0xp'', target = ''0xb'',
        data_token = \<lparr> token_id = ''0xt'', symbol = ''TKx'' \<rparr>, data_flowRate = 0,
        animated = True, edge_type = ''floating'', something_length = 1, something_index = 0 \<rparr>,
      \<lparr> edge_id = ''0xt-0xa-0xb'', source = ''0xa'', target = ''0xb'',
        data_token = \<lparr> token_id = ''0xt'', symbol = ''TKx'' \<rparr>, data_flowRate = 100,
        animated = True, edge_type = ''floating'', something_length = 2, something_index = 0 \<rparr>,
      \<lparr> edge_id = ''0xt-0xb-0xa'', source = ''0xb'', target = ''0xa'',
        data_token = \<lparr> token_id = ''0xt'', symbol = ''TKx'' \<rparr>, data_flowRate = 30,
        animated = True, edge_type = ''floating'', something_length = 2, something_index = 1 \<rparr>]"

definition twoStreamsEdges :: "myEdge list" where
  "twoStreamsEdges =
     [\<lparr> edge_id = ''0xt-0xa-0xb'', source = ''0xa'', target = ''0xb'',
        data_token = \<lparr> token_id = ''0xt'', symbol = ''TKx'' \<rparr>, data_flowRate = 100,
        animated = True, edge_type = ''floating'', something_length = 2, something_index = 0 \<rparr>,
      \<lparr> edge_id = ''0xt-0xb-0xa'', source = ''0xb'', target = ''0xa'',
        data_token = \<lparr> token_id = ''0xt'', symbol = ''TKx'' \<rparr>, data_flowRate = 30,
        animated = True, edge_type = ''floating'', something_length = 2, something_index = 1 \<rparr>]"

definition poolRaw :: "partialEdge list" where
  "poolRaw =
     [\<lparr> edge_id = ''0xt-0xp-0xa'', source = ''0xp'', target = ''0xa'',
        data_token = \<lparr> token_id = ''0xt'', symbol = ''TKx'' \<rparr>, data_flowRate = 4000 \<rparr>,
      \<lparr> edge_id = ''0xt-0xp-0xb'', source = ''0xp'', target = ''0xb'',
        data_token = \<lparr> token_id = ''0xt'', symbol = ''TKx'' \<rparr>, data_flowRate = 0 \<rparr>,
      \<lparr> edge_id = ''0xt-0xp-0xa'', source = ''0xp'', target = ''0xa'',
        data_token = \<lparr> token_id = ''0xt'', symbol = ''TKx'' \<rparr>, data_flowRate = 4000 \<rparr>]"

definition poolEdges :: "myEdge list" where
  "poolEdges =
     [\<lparr> edge_id = ''0xt-0xp-0xa'', source = ''0xp'', target = ''0xa'',
        data_token = \<lparr> token_id = ''0xt'', symbol = ''TKx'' \<rparr>, data_flowRate = 8000,
        animated = True, edge_type = ''floating'', something_length = 1, something_index = 0 \<rparr>,
      \<lparr> edge_id = ''0xt-0xp-0xb'', source = ''0xp'', target = ''0xb'',
        data_token = \<lparr> token_id = ''0xt'', symbol = ''TKx'' \<rparr>, data_flowRate = 0,
        animated = True, edge_type = ''floating'', something_length = 1, something_index = 0 \<rparr>]"

section \<open>Facts about the fallible map and grouping\<close>

lemma mapE_Inr_iff: "mapE f xs = Inr ys \<longleftrightarrow> list_all2 (\<lambda>x y. f x = Inr y) xs ys"
proof (induction xs arbitrary: ys)
  case Nil
  then show ?case by auto
next
  case (Cons x xs)
  show ?case
  proof (cases "f x")
    case (Inl e)
    then show ?thesis by (auto simp: list_all2_Cons1)
  next
    case (Inr y)
    then show ?thesis
      using Cons.IH by (cases "mapE f xs") (auto simp: list_all2_Cons1)
  qed
qed

lemma mapE_total:
  assumes "\<And>x. x \<in> set xs \<Longrightarrow> \<exists>y. f x = Inr y"
  shows "\<exists>ys. mapE f xs = Inr ys"
  using assms
proof (induction xs)
  case Nil
  then show ?case by simp
next
  case (Cons x xs)
  then obtain y where y: "f x = Inr y" by (meson list.set_intros(1))
  from Cons obtain ys where "mapE f xs = Inr ys" by (meson list.set_intros(2))
  with y show ?case by simp
qed

lemma groupBy_snoc: "groupBy (xs @ [x]) f = push_group (f x) x (groupBy xs f)"
  by (simp add: groupBy_def)

lemma groupBy_Nil: "groupBy [] f = []"
  by (simp add: groupBy_def)

lemma push_group_keys:
  "map fst (push_group k x acc) = (if k \<in> set (map fst acc) then map fst acc else map fst acc @ [k])"
proof (induction acc)
  case Nil
  then show ?case by simp
next
  case (Cons p acc)
  obtain k' g where p: "p = (k', g)" by (cases p)
  show ?case using Cons.IH by (simp add: p)
qed

lemma groupBy_keys: "set (map fst (groupBy xs f)) = f ` set xs"
  by (induction xs rule: rev_induct) (auto simp: groupBy_Nil groupBy_snoc push_group_keys)

lemma groupBy_keys_distinct: "distinct (map fst (groupBy xs f))"
  by (induction xs rule: rev_induct) (auto simp: groupBy_Nil groupBy_snoc push_group_keys)

lemma push_group_members:
  assumes "distinct (map fst acc)" "(k', g') \<in> set (push_group k x acc)"
  shows "(k' \<noteq> k \<and> (k', g') \<in> set acc)
       \<or> (k' = k \<and> (\<exists>g. (k, g) \<in> set acc \<and> g' = g @ [x]))
       \<or> (k' = k \<and> k \<notin> fst ` set acc \<and> g' = [x])"
  using assms
proof (induction acc)
  case Nil
  then show ?case by simp
next
  case (Cons p acc)
  obtain k0 g0 where p: "p = (k0, g0)" by (cases p)
  show ?case
  proof (cases "k0 = k")
    case True
    with Cons.prems p have "(k', g') = (k, g0 @ [x]) \<or> (k', g') \<in> set acc" by simp
    then show ?thesis
    proof
      assume "(k', g') = (k, g0 @ [x])"
      then show ?thesis using True p by auto
    next
      assume a: "(k', g') \<in> set acc"
      with Cons.prems(1) p True have "k' \<noteq> k" by force
      with a show ?thesis by simp
    qed
  next
    case False
    with Cons.prems p have "(k', g') = (k0, g0) \<or> (k', g') \<in> set (push_group k x acc)" by simp
    then show ?thesis
    proof
      assume "(k', g') = (k0, g0)"
      then show ?thesis using False p by auto
    next
      assume a: "(k', g') \<in> set (push_group k x acc)"
      from Cons.prems(1) have "distinct (map fst acc)" by simp
      from Cons.IH[OF this a] show ?thesis using False p by auto
    qed
  qed
qed

lemma groupBy_group:
  "(k, g) \<in> set (groupBy xs f) \<Longrightarrow> g = filter (\<lambda>x. f x = k) xs"
proof (induction xs arbitrary: k g rule: rev_induct)
  case Nil
  then show ?case by (simp add: groupBy_Nil)
next
  case (snoc x xs)
  from snoc.prems have "(k, g) \<in> set (push_group (f x) x (groupBy xs f))"
    by (simp add: groupBy_snoc)
  from push_group_members[OF groupBy_keys_distinct this]
  consider "k \<noteq> f x" "(k, g) \<in> set (groupBy xs f)"
    | g0 where "k = f x" "(f x, g0) \<in> set (groupBy xs f)" "g = g0 @ [x]"
    | "k = f x" "f x \<notin> fst ` set (groupBy xs f)" "g = [x]"
    by blast
  then show ?case
  proof cases
    case 1
    then show ?thesis using snoc.IH by auto
  next
    case 2
    then show ?thesis using snoc.IH by auto
  next
    case 3
    from 3(2) have "f x \<notin> f ` set xs" using groupBy_keys[of xs f] by simp
    then have "\<forall>y\<in>set xs. f y \<noteq> f x" by (metis imageI)
    then have "filter (\<lambda>y. f y = f x) xs = []" by (simp add: filter_empty_conv)
    with 3 show ?thesis by simp
  qed
qed

lemma groupBy_lookup:
  assumes "x \<in> set xs"
  shows "map_of (groupBy xs f) (f x) = Some (filter (\<lambda>y. f y = f x) xs)"
proof -
  from assms have "f x \<in> set (map fst (groupBy xs f))" by (simp only: groupBy_keys) simp
  then obtain g where g: "(f x, g) \<in> set (groupBy xs f)" by auto
  then have "g = filter (\<lambda>y. f y = f x) xs" by (rule groupBy_group)
  moreover from g have "map_of (groupBy xs f) (f x) = Some g"
    by (rule map_of_is_SomeI[OF groupBy_keys_distinct])
  ultimately show ?thesis by simp
qed

lemma groupBy_nonempty: "(k, g) \<in> set (groupBy xs f) \<Longrightarrow> g \<noteq> [] \<and> (\<forall>x\<in>set g. f x = k) \<and> set g \<subseteq> set xs"
proof -
  assume a: "(k, g) \<in> set (groupBy xs f)"
  then have g: "g = filter (\<lambda>x. f x = k) xs" by (rule groupBy_group)
  from a have "k \<in> set (map fst (groupBy xs f))" by force
  then have "k \<in> f ` set xs" by (simp only: groupBy_keys)
  with g show ?thesis by (auto simp: filter_empty_conv)
qed

section \<open>Facts about the node builder\<close>

lemma nodesButRedundant_ids: "node_id ` set (nodesButRedundant d) = relationIds d"
  by (auto simp: nodesButRedundant_def nodesFromAccounts_def nodesFromPoolMembers_def
      nodesFromPoolDistributors_def nodesFromStreams_def relationIds_def poolNode_def
      accountNode_def image_Un image_UN image_image)

lemma foldl_or_list_ex: "foldl (\<lambda>acc x. acc \<or> P x) b xs = (b \<or> list_ex P xs)"
  by (induction xs arbitrary: b) auto

lemma truthy_Some [simp]: "truthy (Some b) = b"
  by (simp add: truthy_def)

lemma mergeNodes_ok:
  assumes "g \<noteq> []"
  shows "\<exists>m. mergeNodes g = Inr m \<and> node_id m = node_id (hd g)
          \<and> truthy (data_isPool m) = list_ex (\<lambda>x. truthy (data_isPool x)) g
          \<and> truthy (data_isSuperApp m) = list_ex (\<lambda>x. truthy (data_isSuperApp x)) g
          \<and> truthy (data_isSelected m) = list_ex (\<lambda>x. truthy (data_isSelected x)) g"
proof -
  from assms obtain root rest where g: "g = root # rest" by (cases g) auto
  show ?thesis
  proof (cases rest)
    case Nil
    with g show ?thesis by (simp add: mergeNodes_def)
  next
    case (Cons r rs)
    with g show ?thesis by (simp add: mergeNodes_def foldl_or_list_ex)
  qed
qed

lemma fullNode_fields:
  assumes "fullNode ga sh c m = Inr n"
  shows "node_id n = node_id m" "data_isPool n = data_isPool m"
    "data_isSuperApp n = data_isSuperApp m" "data_isSelected n = data_isSelected m"
  using assms by (auto simp: fullNode_def partialNode.defs split: option.splits)


lemma uniqMergedNodes_groups:
  assumes "uniqMergedNodes d = Inr ms"
  shows "list_all2 (\<lambda>p m. p \<in> set (groupBy (nodesButRedundant d) node_id) \<and> merged_from (snd p) m)
           (groupBy (nodesButRedundant d) node_id) ms"
proof -
  let ?G = "groupBy (nodesButRedundant d) node_id"
  from assms have a: "list_all2 (\<lambda>p m. (case p of (k, g) \<Rightarrow> mergeNodes g) = Inr m) ?G ms"
    by (simp add: uniqMergedNodes_def mapE_Inr_iff)
  have "length ?G = length ms" using a by (rule list_all2_lengthD)
  moreover have "\<forall>i<length ?G. ?G ! i \<in> set ?G \<and> merged_from (snd (?G ! i)) (ms ! i)"
  proof (intro allI impI)
    fix i assume i: "i < length ?G"
    obtain k g where kg: "?G ! i = (k, g)" by (cases "?G ! i")
    from i have mem: "?G ! i \<in> set ?G" by simp
    with kg have "g \<noteq> []" using groupBy_nonempty by metis
    from mergeNodes_ok[OF this] obtain m where
      m: "mergeNodes g = Inr m" "merged_from g m"
      by (auto simp: merged_from_def \<open>g \<noteq> []\<close>)
    from a i have "(case ?G ! i of (k, g) \<Rightarrow> mergeNodes g) = Inr (ms ! i)"
      by (simp add: list_all2_conv_all_nth)
    with kg m have "ms ! i = m" by simp
    with m kg mem show "?G ! i \<in> set ?G \<and> merged_from (snd (?G ! i)) (ms ! i)" by simp
  qed
  ultimately show ?thesis by (simp add: list_all2_conv_all_nth)
qed

lemma mapNodes_groups:
  assumes "mapNodes ga sh c d = Inr ns"
  shows "list_all2 (\<lambda>p n. p \<in> set (groupBy (nodesButRedundant d) node_id) \<and> merged_from (snd p) n)
           (groupBy (nodesButRedundant d) node_id) ns"
proof -
  let ?G = "groupBy (nodesButRedundant d) node_id"
  from assms obtain ms where ms: "uniqMergedNodes d = Inr ms"
    and full: "mapE (fullNode ga sh c) ms = Inr ns"
    by (auto simp: mapNodes_def split: sum.splits)
  from full have b: "list_all2 (\<lambda>m n. fullNode ga sh c m = Inr n) ms ns"
    by (simp add: mapE_Inr_iff)
  show ?thesis
  proof (rule list_all2_trans[OF _ uniqMergedNodes_groups[OF ms] b])
    fix p m n
    assume "p \<in> set ?G \<and> merged_from (snd p) m" "fullNode ga sh c m = Inr n"
    then show "p \<in> set ?G \<and> merged_from (snd p) n"
      by (simp add: merged_from_def fullNode_fields)
  qed
qed

lemma mapNodes_ids:
  assumes "mapNodes ga sh c d = Inr ns"
  shows "map node_id ns = map fst (groupBy (nodesButRedundant d) node_id)"
proof -
  let ?G = "groupBy (nodesButRedundant d) node_id"
  have key: "node_id n = fst p" if a: "p \<in> set ?G \<and> merged_from (snd p) n"
    for p and n :: myNode
  proof -
    from a have "(fst p, snd p) \<in> set ?G" by simp
    from groupBy_nonempty[OF this] a show "node_id n = fst p"
      by (simp add: merged_from_def)
  qed
  have "list_all2 (\<lambda>p n. node_id n = fst p) ?G ns"
    by (rule list_all2_mono[OF mapNodes_groups[OF assms]]) (rule key)
  then show ?thesis
    by (simp add: list_all2_conv_all_nth list_eq_iff_nth_eq)
qed

lemma mapNodes_node_group:
  assumes "mapNodes ga sh c d = Inr ns" "n \<in> set ns"
  shows "merged_from (filter (\<lambda>x. node_id x = node_id n) (nodesButRedundant d)) n"
proof -
  let ?G = "groupBy (nodesButRedundant d) node_id"
  from assms(2) obtain i where i: "i < length ns" "ns ! i = n"
    by (auto simp: in_set_conv_nth)
  from mapNodes_groups[OF assms(1)] i
  have "?G ! i \<in> set ?G \<and> merged_from (snd (?G ! i)) n"
    by (auto simp: list_all2_conv_all_nth)
  then obtain p where p: "p \<in> set ?G" "merged_from (snd p) n"
    by blast
  then have mem: "(fst p, snd p) \<in> set ?G" by simp
  from groupBy_nonempty[OF mem] p(2) have "node_id n = fst p"
    by (simp add: merged_from_def)
  with groupBy_group[OF mem] p(2) show ?thesis by simp
qed

section \<open>Facts about the edge builder\<close>

lemma mapE_map:
  assumes "\<And>x. x \<in> set xs \<Longrightarrow> f x = Inr (g x)"
  shows "mapE f xs = Inr (map g xs)"
  using assms by (induction xs) simp_all

lemma memberFlowRate_total: "\<exists>r. memberFlowRate x = Inr r"
  by (simp add: memberFlowRate_def bigint_div_def)

lemma edgeFromPoolMember_ok:
  "\<exists>e. edgeFromPoolMember x = Inr e \<and> source e = pool_id (member_pool x)
        \<and> target e = account_id (member_account x)"
proof -
  obtain r where "memberFlowRate x = Inr r" using memberFlowRate_total by blast
  then show ?thesis by (simp add: edgeFromPoolMember_def)
qed

lemma edgesFromPoolMembers_total:
  "\<exists>ms. edgesFromPoolMembers d = Inr ms
        \<and> list_all2 (\<lambda>x e. edgeFromPoolMember x = Inr e) (allPoolMembers d) ms"
proof -
  have "\<exists>ms. mapE edgeFromPoolMember (allPoolMembers d) = Inr ms"
    by (rule mapE_total) (use edgeFromPoolMember_ok in blast)
  then show ?thesis by (auto simp: edgesFromPoolMembers_def mapE_Inr_iff)
qed

lemma edgesButRedundant_total: "\<exists>raw. edgesButRedundant d = Inr raw"
  using edgesFromPoolMembers_total[of d] by (auto simp: edgesButRedundant_def)

lemma raw_endpoints:
  assumes "edgesButRedundant d = Inr raw" "e \<in> set raw"
  shows "source e \<in> relationIds d \<and> target e \<in> relationIds d"
proof -
  from assms(1) obtain ms where ms: "edgesFromPoolMembers d = Inr ms"
    and raw: "raw = ms @ edgesFromStreams d @ edgesFromPoolDistributors d"
    by (auto simp: edgesButRedundant_def split: sum.splits)
  from ms have all2: "list_all2 (\<lambda>x e. edgeFromPoolMember x = Inr e) (allPoolMembers d) ms"
    by (simp add: edgesFromPoolMembers_def mapE_Inr_iff)
  from assms(2) raw consider "e \<in> set ms" | "e \<in> set (edgesFromStreams d)"
    | "e \<in> set (edgesFromPoolDistributors d)" by auto
  then show ?thesis
  proof cases
    case 1
    then obtain i where i: "i < length ms" "ms ! i = e" by (auto simp: in_set_conv_nth)
    let ?x = "allPoolMembers d ! i"
    from all2 i have x: "?x \<in> set (allPoolMembers d)" "edgeFromPoolMember ?x = Inr e"
      by (auto simp: list_all2_conv_all_nth)
    from edgeFromPoolMember_ok[of ?x] x(2)
    have "source e = pool_id (member_pool ?x)" "target e = account_id (member_account ?x)"
      by auto
    with x(1) show ?thesis unfolding relationIds_def by blast
  next
    case 2
    then show ?thesis by (auto simp: edgesFromStreams_def relationIds_def)
  next
    case 3
    then show ?thesis by (auto simp: edgesFromPoolDistributors_def relationIds_def)
  qed
qed

lemma foldl_add_sum_list: "foldl (\<lambda>acc x. acc + f x) (a::int) xs = a + sum_list (map f xs)"
  by (induction xs arbitrary: a) simp_all

lemma mergeEdges_ok:
  assumes "g \<noteq> []"
  shows "\<exists>m. mergeEdges g = Inr m \<and> merged_edge_from g m"
proof -
  from assms obtain root rest where g: "g = root # rest" by (cases g) auto
  show ?thesis
  proof (cases rest)
    case Nil
    with g show ?thesis by (simp add: mergeEdges_def merged_edge_from_def)
  next
    case (Cons r rs)
    with g show ?thesis by (simp add: mergeEdges_def merged_edge_from_def foldl_add_sum_list)
  qed
qed

lemma uniqEdges_groups:
  assumes "edgesButRedundant d = Inr raw" "uniqEdges d = Inr us"
  shows "list_all2 (\<lambda>p u. p \<in> set (groupBy raw edge_id) \<and> merged_edge_from (snd p) u)
           (groupBy raw edge_id) us"
proof -
  let ?G = "groupBy raw edge_id"
  from assms have a: "list_all2 (\<lambda>p m. (case p of (k, g) \<Rightarrow> mergeEdges g) = Inr m) ?G us"
    by (simp add: uniqEdges_def mapE_Inr_iff)
  have "length ?G = length us" using a by (rule list_all2_lengthD)
  moreover have "\<forall>i<length ?G. ?G ! i \<in> set ?G \<and> merged_edge_from (snd (?G ! i)) (us ! i)"
  proof (intro allI impI)
    fix i assume i: "i < length ?G"
    obtain k g where kg: "?G ! i = (k, g)" by (cases "?G ! i")
    from i have mem: "?G ! i \<in> set ?G" by simp
    with kg have "g \<noteq> []" using groupBy_nonempty by metis
    from mergeEdges_ok[OF this] obtain m where
      m: "mergeEdges g = Inr m" "merged_edge_from g m" by blast
    from a i have "(case ?G ! i of (k, g) \<Rightarrow> mergeEdges g) = Inr (us ! i)"
      by (simp add: list_all2_conv_all_nth)
    with kg m have "us ! i = m" by simp
    with m kg mem show "?G ! i \<in> set ?G \<and> merged_edge_from (snd (?G ! i)) (us ! i)" by simp
  qed
  ultimately show ?thesis by (simp add: list_all2_conv_all_nth)
qed

lemma uniqEdges_total:
  assumes "edgesButRedundant d = Inr raw"
  shows "\<exists>us. uniqEdges d = Inr us"
proof -
  have "\<exists>us. mapE (\<lambda>(k, g). mergeEdges g) (groupBy raw edge_id) = Inr us"
  proof (rule mapE_total)
    fix p assume p: "p \<in> set (groupBy raw edge_id)"
    then have "(fst p, snd p) \<in> set (groupBy raw edge_id)" by simp
    from groupBy_nonempty[OF this] have "snd p \<noteq> []" by simp
    from mergeEdges_ok[OF this] show "\<exists>y. (case p of (k, g) \<Rightarrow> mergeEdges g) = Inr y"
      by (auto simp: case_prod_beta)
  qed
  with assms show ?thesis by (simp add: uniqEdges_def)
qed

lemma uniqEdges_ids:
  assumes "edgesButRedundant d = Inr raw" "uniqEdges d = Inr us"
  shows "map edge_id us = map fst (groupBy raw edge_id)"
proof -
  let ?G = "groupBy raw edge_id"
  have key: "edge_id u = fst p" if a: "p \<in> set ?G \<and> merged_edge_from (snd p) u" for p u
  proof -
    from a have "(fst p, snd p) \<in> set ?G" by simp
    from groupBy_nonempty[OF this] a show "edge_id u = fst p"
      by (simp add: merged_edge_from_def)
  qed
  have "list_all2 (\<lambda>p u. edge_id u = fst p) ?G us"
    by (rule list_all2_mono[OF uniqEdges_groups[OF assms]]) (rule key)
  then show ?thesis
    by (simp add: list_all2_conv_all_nth list_eq_iff_nth_eq)
qed

lemma uniqEdges_distinct:
  assumes "edgesButRedundant d = Inr raw" "uniqEdges d = Inr us"
  shows "distinct (map edge_id us)"
  by (simp only: uniqEdges_ids[OF assms] groupBy_keys_distinct)

lemma uniqEdges_edge_group:
  assumes "edgesButRedundant d = Inr raw" "uniqEdges d = Inr us" "u \<in> set us"
  shows "merged_edge_from (filter (\<lambda>x. edge_id x = edge_id u) raw) u"
proof -
  let ?G = "groupBy raw edge_id"
  from assms(3) obtain i where i: "i < length us" "us ! i = u"
    by (auto simp: in_set_conv_nth)
  from uniqEdges_groups[OF assms(1,2)] i
  have "?G ! i \<in> set ?G \<and> merged_edge_from (snd (?G ! i)) u"
    by (auto simp: list_all2_conv_all_nth)
  then obtain p where p: "p \<in> set ?G" "merged_edge_from (snd p) u"
    by blast
  then have mem: "(fst p, snd p) \<in> set ?G" by simp
  from groupBy_nonempty[OF mem] p(2) have "edge_id u = fst p"
    by (simp add: merged_edge_from_def)
  with groupBy_group[OF mem] p(2) show ?thesis by simp
qed

lemma fullEdge_ok:
  assumes "x \<in> set us"
  shows "fullEdge (groupBy us pairKey) x = Inr (parallelEdge us x)"
  using groupBy_lookup[OF assms, of pairKey]
  by (simp add: fullEdge_def parallelEdge_def)

lemma mapEdges_char:
  assumes "uniqEdges d = Inr us"
  shows "mapEdges d = Inr (map (parallelEdge us) us)"
  using assms by (simp add: mapEdges_def mapE_map[OF fullEdge_ok])

lemma mapEdges_total: "\<exists>es. mapEdges d = Inr es"
proof -
  obtain raw where raw: "edgesButRedundant d = Inr raw" using edgesButRedundant_total by blast
  from uniqEdges_total[OF raw] obtain us where "uniqEdges d = Inr us" by blast
  from mapEdges_char[OF this] show ?thesis by blast
qed

lemma parallelEdge_fields:
  "edge_id (parallelEdge us x) = edge_id x" "source (parallelEdge us x) = source x"
  "target (parallelEdge us x) = target x" "data_flowRate (parallelEdge us x) = data_flowRate x"
  "something_length (parallelEdge us x) = int (length (filter (\<lambda>y. pairKey y = pairKey x) us))"
  "something_index (parallelEdge us x) = indexOf (filter (\<lambda>y. pairKey y = pairKey x) us) x"
  "pairKey (parallelEdge us x) = pairKey x"
  by (simp_all add: parallelEdge_def partialEdge.defs pairKey_def)

lemma uniqEdges_endpoints:
  assumes "uniqEdges d = Inr us" "u \<in> set us"
  shows "source u \<in> relationIds d \<and> target u \<in> relationIds d"
proof -
  from assms(1) obtain raw where raw: "edgesButRedundant d = Inr raw"
    by (auto simp: uniqEdges_def split: sum.splits)
  let ?g = "filter (\<lambda>x. edge_id x = edge_id u) raw"
  from uniqEdges_edge_group[OF raw assms]
  have g: "?g \<noteq> []" "source u = source (hd ?g)" "target u = target (hd ?g)"
    by (simp_all add: merged_edge_from_def)
  from g(1) have "hd ?g \<in> set ?g" by (rule hd_in_set)
  then have "hd ?g \<in> set raw" by simp
  from raw_endpoints[OF raw this] g show ?thesis by simp
qed

lemma edgeFromPoolMember_rate:
  assumes "memberFlowRate x = Inr r" "edgeFromPoolMember x = Inr e"
  shows "source e = pool_id (member_pool x)" "target e = account_id (member_account x)"
    "data_flowRate e = r"
  using assms by (auto simp: edgeFromPoolMember_def)

lemma indexOf_mem:
  assumes "x \<in> set xs"
  shows "0 \<le> indexOf xs x \<and> indexOf xs x < int (length xs) \<and> xs ! nat (indexOf xs x) = x"
  using assms
proof (induction xs)
  case Nil
  then show ?case by simp
next
  case (Cons y ys)
  show ?case
  proof (cases "y = x")
    case True
    then show ?thesis by simp
  next
    case False
    with Cons.prems have "x \<in> set ys" by simp
    from Cons.IH[OF this] False show ?thesis
      by (simp add: Let_def nat_add_distrib)
  qed
qed

lemma join_hyphen_inj:
  assumes "CHR ''-'' \<notin> set a" "CHR ''-'' \<notin> set a'" "a @ ''-'' @ b = a' @ ''-'' @ b'"
  shows "a = a' \<and> b = b'"
  using assms
proof (induction a arbitrary: a')
  case Nil
  then show ?case by (cases a') auto
next
  case (Cons c cs)
  show ?case
  proof (cases a')
    case Nil
    with Cons.prems show ?thesis by auto
  next
    case (Cons c' cs')
    with Cons.prems have "c = c'" "cs @ ''-'' @ b = cs' @ ''-'' @ b'"
      "CHR ''-'' \<notin> set cs" "CHR ''-'' \<notin> set cs'" by auto
    with Cons.IH[of cs'] Cons show ?thesis by simp
  qed
qed

lemma sort_pair_eq_iff:
  fixes s :: "'a::linorder"
  shows "sort [s, t] = sort [s', t'] \<longleftrightarrow> {s, t} = {s', t'}"
  by (auto simp: doubleton_eq_iff)

lemma sort_pair_cases:
  fixes s :: "'a::linorder"
  obtains a b where "sort [s, t] = [a, b]" "{a, b} = {s, t}"
  by (cases "s \<le> t") auto

lemma pairKey_eq_iff:
  assumes "CHR ''-'' \<notin> set (source x)" "CHR ''-'' \<notin> set (target x)"
    "CHR ''-'' \<notin> set (source y)" "CHR ''-'' \<notin> set (target y)"
  shows "pairKey x = pairKey y \<longleftrightarrow> {source x, target x} = {source y, target y}"
proof -
  obtain a b where ab: "sort [source x, target x] = [a, b]" "{a, b} = {source x, target x}"
    by (rule sort_pair_cases)
  obtain a' b' where ab': "sort [source y, target y] = [a', b']" "{a', b'} = {source y, target y}"
    by (rule sort_pair_cases)
  from ab(2) assms(1,2) have a: "CHR ''-'' \<notin> set a" by (metis insertCI insertE singletonD)
  from ab'(2) assms(3,4) have a': "CHR ''-'' \<notin> set a'" by (metis insertCI insertE singletonD)
  have "pairKey x = pairKey y \<longleftrightarrow> a @ ''-'' @ b = a' @ ''-'' @ b'"
    by (simp only: pairKey_def ab(1) ab'(1) join.simps)
  also have "\<dots> \<longleftrightarrow> [a, b] = [a', b']"
    using join_hyphen_inj[OF a a'] by blast
  also have "\<dots> \<longleftrightarrow> sort [source x, target x] = sort [source y, target y]"
    by (simp only: ab(1) ab'(1))
  also have "\<dots> \<longleftrightarrow> {source x, target x} = {source y, target y}"
    by (rule sort_pair_eq_iff)
  finally show ?thesis .
qed

section \<open>The builders on the example snapshots\<close>

lemmas fixture_defs = tokenX_def accountA_def accountB_def streamAB_def streamBA_def headBlock_def
  emptySnapshot_def twoStreams_def poolP_def member50_def member0_def selectedP_def poolSnapshot_def
  lonelyPool_def bareAccount_def bareAccountSnapshot_def mixedSnapshot_def

lemma mapNodes_mixed: "mapNodes Some id 1 mixedSnapshot = Inr mixedNodes"
  by code_simp

lemma mapEdges_mixed: "mapEdges mixedSnapshot = Inr mixedEdges"
  by code_simp

lemma mapEdges_twoStreams: "mapEdges twoStreams = Inr twoStreamsEdges"
  by code_simp

lemma edgesButRedundant_pool: "edgesButRedundant poolSnapshot = Inr poolRaw"
  by code_simp

lemma mapEdges_pool: "mapEdges poolSnapshot = Inr poolEdges"
  by code_simp

lemma relationIds_mixed: "relationIds mixedSnapshot = {''0xa'', ''0xp'', ''0xb''}"
  by code_simp

lemma relationIds_twoStreams: "relationIds twoStreams = {''0xa'', ''0xb''}"
  by code_simp

section \<open>Ids of a successful run contain no hyphen\<close>

text \<open>
  Every id of a contributing relation becomes a node id and passes \<open>getAddress\<close>. viem
  accepts only \<open>0x\<close> followed by forty hex digits, so in a run that returns a result no
  endpoint id contains the hyphen that the pair key is joined with.
\<close>

lemma mapNodes_ids_accepted:
  assumes "mapNodes ga sh c d = Inr ns" "i \<in> relationIds d"
  shows "ga i \<noteq> None"
proof -
  have "set (map node_id ns) = relationIds d"
    by (simp only: mapNodes_ids[OF assms(1)] groupBy_keys nodesButRedundant_ids)
  with assms(2) have "i \<in> node_id ` set ns" by simp
  then obtain n where n: "n \<in> set ns" "node_id n = i" by blast
  from assms(1) obtain ms where "mapE (fullNode ga sh c) ms = Inr ns"
    by (auto simp: mapNodes_def split: sum.splits)
  then have "list_all2 (\<lambda>m n. fullNode ga sh c m = Inr n) ms ns" by (simp add: mapE_Inr_iff)
  with n(1) obtain m where m: "fullNode ga sh c m = Inr n"
    by (auto simp: list_all2_conv_all_nth in_set_conv_nth)
  then have "ga (node_id m) \<noteq> None" by (auto simp: fullNode_def split: option.splits)
  with fullNode_fields(1)[OF m] n(2) show ?thesis by simp
qed

lemma dataMapper_ids_hyphen_free:
  assumes "\<And>s. ga s \<noteq> None \<Longrightarrow> CHR ''-'' \<notin> set s" "dataMapper ga sh c d = Inr r"
  shows "\<forall>i\<in>relationIds d. CHR ''-'' \<notin> set i"
proof
  fix i assume i: "i \<in> relationIds d"
  from assms(2) obtain ns where "mapNodes ga sh c d = Inr ns"
    by (auto simp: dataMapper_def split: sum.splits)
  from mapNodes_ids_accepted[OF this i] show "CHR ''-'' \<notin> set i" by (rule assms(1))
qed

section \<open>Properties of the node builder\<close>

lemma list_ex_filter_iff:
  "list_ex P (filter Q xs) \<longleftrightarrow> (\<exists>x\<in>set xs. Q x \<and> P x)"
  by (auto simp: list_ex_iff)

lemma selected_candidates:
  assumes "x \<in> set (nodesButRedundant d)" "data_isSelected x = Some True"
  shows "node_id x \<in> selected_account_id ` set (selectedAccounts d)"
  using assms
  by (auto simp: nodesButRedundant_def nodesFromAccounts_def nodesFromPoolMembers_def
      nodesFromPoolDistributors_def nodesFromStreams_def poolNode_def accountNode_def)

lemma pool_candidates:
  assumes "x \<in> set (nodesButRedundant d)" "data_isPool x = Some True"
  shows "node_id x \<in> (\<lambda>m. pool_id (member_pool m)) ` set (allPoolMembers d)
                    \<union> (\<lambda>m. pool_id (distributor_pool m)) ` set (allPoolDistributors d)"
  using assms
  by (auto simp: nodesButRedundant_def nodesFromAccounts_def nodesFromPoolMembers_def
      nodesFromPoolDistributors_def nodesFromStreams_def poolNode_def accountNode_def)

text \<open>
  C2. The claim: a selected account without per-token balance snapshots takes its creation
  and update block and timestamp from the account's own fields. The code: \<open>Math.min()\<close>
  and \<open>Math.max()\<close> of no arguments are \<open>Infinity\<close> and \<open>-Infinity\<close>, which are
  not nullish, so \<open>??\<close> never takes the account's fields. For the account below, created
  at block 100 and updated at block 200, the candidate and the output node carry the
  infinities.
\<close>

theorem account_without_snapshots_gets_infinities:
  "accountTokenSnapshots bareAccount = []
   \<and> nodesFromAccounts bareAccountSnapshot =
       [\<lparr> node_id = ''0xa'', data_isPool = None, data_isSuperApp = Some False,
          data_isSelected = Some True, data_createdAtBlockNumber = PosInf,
          data_createdAtTimestamp = PosInf, data_updatedAtBlockNumber = NegInf,
          data_updatedAtTimestamp = NegInf \<rparr>]
   \<and> mapNodes Some id 1 bareAccountSnapshot = Inr
       [\<lparr> node_id = ''0xa'', data_isPool = None, data_isSuperApp = Some False,
          data_isSelected = Some True, data_createdAtBlockNumber = PosInf,
          data_createdAtTimestamp = PosInf, data_updatedAtBlockNumber = NegInf,
          data_updatedAtTimestamp = NegInf, data_chain = 1, data_address = ''0xa'',
          data_label = ''0xa'', node_type = ''custom'', position = (0, 0) \<rparr>]"
proof (intro conjI)
  show "accountTokenSnapshots bareAccount = []" by (simp add: bareAccount_def)
  show "nodesFromAccounts bareAccountSnapshot =
       [\<lparr> node_id = ''0xa'', data_isPool = None, data_isSuperApp = Some False,
          data_isSelected = Some True, data_createdAtBlockNumber = PosInf,
          data_createdAtTimestamp = PosInf, data_updatedAtBlockNumber = NegInf,
          data_updatedAtTimestamp = NegInf \<rparr>]"
    by code_simp
  show "mapNodes Some id 1 bareAccountSnapshot = Inr
       [\<lparr> node_id = ''0xa'', data_isPool = None, data_isSuperApp = Some False,
          data_isSelected = Some True, data_createdAtBlockNumber = PosInf,
          data_createdAtTimestamp = PosInf, data_updatedAtBlockNumber = NegInf,
          data_updatedAtTimestamp = NegInf, data_chain = 1, data_address = ''0xa'',
          data_label = ''0xa'', node_type = ''custom'', position = (0, 0) \<rparr>]"
    by code_simp
qed

text \<open>
  C7. Whenever the node builder returns, no two output nodes share an id, and the ids of
  the output nodes are exactly the ids that the contributing relations mention: one node per
  distinct address.
\<close>

theorem mapNodes_unique_ids:
  assumes "mapNodes getAddress shortenHex chain d = Inr ns"
  shows "distinct (map node_id ns) \<and> set (map node_id ns) = relationIds d"
proof -
  have "map node_id ns = map fst (groupBy (nodesButRedundant d) node_id)"
    using assms by (rule mapNodes_ids)
  then show ?thesis
    by (simp only: groupBy_keys_distinct groupBy_keys nodesButRedundant_ids simp_thms)
qed

theorem mapNodes_unique_ids_witness:
  "mapNodes Some id 1 mixedSnapshot = Inr mixedNodes
   \<and> distinct (map node_id mixedNodes)
   \<and> set (map node_id mixedNodes) = relationIds mixedSnapshot"
  using mapNodes_mixed mapNodes_unique_ids[OF mapNodes_mixed] by simp

text \<open>
  C8. Every candidate has an output node with its id, and each of the three flags of an
  output node is true exactly when some candidate with the node's id sets it: the flag is
  the disjunction over the contributing candidates, so a flag set by one of them is set in
  the merged node.
\<close>

theorem mapNodes_flags_or:
  assumes "mapNodes getAddress shortenHex chain d = Inr ns"
  shows "(\<forall>x\<in>set (nodesButRedundant d). \<exists>n\<in>set ns. node_id n = node_id x)
    \<and> (\<forall>n\<in>set ns.
          (data_isPool n = Some True \<longleftrightarrow>
             (\<exists>x\<in>set (nodesButRedundant d). node_id x = node_id n \<and> data_isPool x = Some True))
        \<and> (data_isSuperApp n = Some True \<longleftrightarrow>
             (\<exists>x\<in>set (nodesButRedundant d). node_id x = node_id n \<and> data_isSuperApp x = Some True))
        \<and> (data_isSelected n = Some True \<longleftrightarrow>
             (\<exists>x\<in>set (nodesButRedundant d). node_id x = node_id n \<and> data_isSelected x = Some True)))"
proof (intro conjI ballI)
  fix x assume "x \<in> set (nodesButRedundant d)"
  then have "node_id x \<in> set (map fst (groupBy (nodesButRedundant d) node_id))"
    by (simp only: groupBy_keys) simp
  then have "node_id x \<in> set (map node_id ns)"
    by (simp only: mapNodes_ids[OF assms])
  then show "\<exists>n\<in>set ns. node_id n = node_id x" by auto
next
  fix n assume n: "n \<in> set ns"
  note m = mapNodes_node_group[OF assms n, unfolded merged_from_def truthy_def list_ex_filter_iff]
  show "data_isPool n = Some True \<longleftrightarrow>
    (\<exists>x\<in>set (nodesButRedundant d). node_id x = node_id n \<and> data_isPool x = Some True)"
    using m by blast
  show "data_isSuperApp n = Some True \<longleftrightarrow>
    (\<exists>x\<in>set (nodesButRedundant d). node_id x = node_id n \<and> data_isSuperApp x = Some True)"
    using m by blast
  show "data_isSelected n = Some True \<longleftrightarrow>
    (\<exists>x\<in>set (nodesButRedundant d). node_id x = node_id n \<and> data_isSelected x = Some True)"
    using m by blast
qed

theorem mapNodes_flags_or_witness:
  "mapNodes Some id 1 mixedSnapshot = Inr mixedNodes
   \<and> hd (nodesButRedundant mixedSnapshot) \<in> set (nodesButRedundant mixedSnapshot)
   \<and> node_id (hd (nodesButRedundant mixedSnapshot)) = ''0xa''
   \<and> data_isSelected (hd (nodesButRedundant mixedSnapshot)) = Some True
   \<and> hd mixedNodes \<in> set mixedNodes
   \<and> node_id (hd mixedNodes) = ''0xa''
   \<and> data_isSelected (hd mixedNodes) = Some True"
proof -
  have c: "hd (nodesButRedundant mixedSnapshot) \<in> set (nodesButRedundant mixedSnapshot)"
    "node_id (hd (nodesButRedundant mixedSnapshot)) = ''0xa''"
    "data_isSelected (hd (nodesButRedundant mixedSnapshot)) = Some True"
    by code_simp+
  have n: "hd mixedNodes \<in> set mixedNodes" "node_id (hd mixedNodes) = ''0xa''"
    by (simp_all add: mixedNodes_def)
  from mapNodes_flags_or[OF mapNodes_mixed] n(1)
  have "data_isSelected (hd mixedNodes) = Some True \<longleftrightarrow>
    (\<exists>x\<in>set (nodesButRedundant mixedSnapshot).
        node_id x = node_id (hd mixedNodes) \<and> data_isSelected x = Some True)"
    by blast
  with c n have "data_isSelected (hd mixedNodes) = Some True" by auto
  with c n mapNodes_mixed show ?thesis by simp
qed

text \<open>
  C4. The candidates built from the selected pools are not grouped. A selected pool whose
  id no membership, distributorship, stream or selected account mentions has no output
  node; an output node is marked selected only if its id is that of a selected account, and
  marked as a pool only if a membership or distributorship names it as its pool. The
  marking of the selected-pool candidates reaches no output node.
\<close>

theorem selected_pools_emit_no_node:
  assumes "mapNodes getAddress shortenHex chain d = Inr ns"
  shows "(\<forall>p\<in>set (selectedPools d).
            selected_pool_id p \<notin> relationIds d \<longrightarrow> selected_pool_id p \<notin> node_id ` set ns)
    \<and> (\<forall>n\<in>set ns. data_isSelected n = Some True \<longrightarrow>
            node_id n \<in> selected_account_id ` set (selectedAccounts d))
    \<and> (\<forall>n\<in>set ns. data_isPool n = Some True \<longrightarrow>
            node_id n \<in> (\<lambda>m. pool_id (member_pool m)) ` set (allPoolMembers d)
                       \<union> (\<lambda>m. pool_id (distributor_pool m)) ` set (allPoolDistributors d))"
proof (intro conjI ballI impI)
  fix p assume "p \<in> set (selectedPools d)" "selected_pool_id p \<notin> relationIds d"
  moreover have "node_id ` set ns = relationIds d"
  proof -
    have "set (map node_id ns) = relationIds d"
      by (simp only: mapNodes_ids[OF assms] groupBy_keys nodesButRedundant_ids)
    then show ?thesis by simp
  qed
  ultimately show "selected_pool_id p \<notin> node_id ` set ns" by simp
next
  fix n assume n: "n \<in> set ns" and s: "data_isSelected n = Some True"
  note m = mapNodes_node_group[OF assms n, unfolded merged_from_def truthy_def list_ex_filter_iff]
  with s obtain x where "x \<in> set (nodesButRedundant d)" "node_id x = node_id n"
    "data_isSelected x = Some True" by blast
  with selected_candidates[of x d]
  show "node_id n \<in> selected_account_id ` set (selectedAccounts d)" by simp
next
  fix n assume n: "n \<in> set ns" and s: "data_isPool n = Some True"
  note m = mapNodes_node_group[OF assms n, unfolded merged_from_def truthy_def list_ex_filter_iff]
  with s obtain x where "x \<in> set (nodesButRedundant d)" "node_id x = node_id n"
    "data_isPool x = Some True" by blast
  with pool_candidates[of x d]
  show "node_id n \<in> (\<lambda>m. pool_id (member_pool m)) ` set (allPoolMembers d)
                       \<union> (\<lambda>m. pool_id (distributor_pool m)) ` set (allPoolDistributors d)" by simp
qed

theorem selected_pools_emit_no_node_witness:
  "mapNodes Some id 1 mixedSnapshot = Inr mixedNodes
   \<and> lonelyPool \<in> set (selectedPools mixedSnapshot)
   \<and> selected_pool_id lonelyPool \<notin> relationIds mixedSnapshot
   \<and> selected_pool_id lonelyPool \<notin> node_id ` set mixedNodes
   \<and> hd mixedNodes \<in> set mixedNodes
   \<and> data_isSelected (hd mixedNodes) = Some True
   \<and> node_id (hd mixedNodes) \<in> selected_account_id ` set (selectedAccounts mixedSnapshot)
   \<and> mixedNodes ! 1 \<in> set mixedNodes
   \<and> data_isPool (mixedNodes ! 1) = Some True
   \<and> node_id (mixedNodes ! 1) \<in> (\<lambda>m. pool_id (member_pool m)) ` set (allPoolMembers mixedSnapshot)
         \<union> (\<lambda>m. pool_id (distributor_pool m)) ` set (allPoolDistributors mixedSnapshot)"
proof -
  have p: "lonelyPool \<in> set (selectedPools mixedSnapshot)"
    "selected_pool_id lonelyPool \<notin> relationIds mixedSnapshot"
    by (simp_all add: relationIds_mixed) (simp_all add: fixture_defs)
  have n: "hd mixedNodes \<in> set mixedNodes" "data_isSelected (hd mixedNodes) = Some True"
    "mixedNodes ! 1 \<in> set mixedNodes" "data_isPool (mixedNodes ! 1) = Some True"
    by (simp_all add: mixedNodes_def)
  note t = selected_pools_emit_no_node[OF mapNodes_mixed]
  from t p have "selected_pool_id lonelyPool \<notin> node_id ` set mixedNodes" by blast
  moreover from t n(1,2)
  have "node_id (hd mixedNodes) \<in> selected_account_id ` set (selectedAccounts mixedSnapshot)"
    by blast
  moreover from t n(3,4)
  have "node_id (mixedNodes ! 1) \<in> (\<lambda>m. pool_id (member_pool m)) ` set (allPoolMembers mixedSnapshot)
         \<union> (\<lambda>m. pool_id (distributor_pool m)) ` set (allPoolDistributors mixedSnapshot)"
    by blast
  ultimately show ?thesis using mapNodes_mixed p n by blast
qed

section \<open>Properties of the edge builder\<close>

text \<open>
  C1. For every membership, from the flat list or embedded in a selected pool, with more
  than zero units, the edge extracted for it runs from the pool to the member and carries
  the pool's flow rate times the pool's total units, divided by the member's units and
  rounded toward zero.
\<close>

theorem member_flow_rate_share:
  assumes "x \<in> set (poolMembers d) \<union> (\<Union>p\<in>set (selectedPools d). set (selected_poolMembers p))"
    and "units x > 0"
  shows "\<exists>es e. edgesFromPoolMembers d = Inr es \<and> e \<in> set es
           \<and> edgeFromPoolMember x = Inr e
           \<and> source e = pool_id (member_pool x) \<and> target e = account_id (member_account x)
           \<and> data_flowRate e =
               (if 0 \<le> flowRate (member_pool x) * totalUnits (member_pool x)
                then (flowRate (member_pool x) * totalUnits (member_pool x)) div units x
                else - ((- (flowRate (member_pool x) * totalUnits (member_pool x))) div units x))"
proof -
  from assms(1) have mem: "x \<in> set (allPoolMembers d)" by (auto simp: allPoolMembers_def)
  obtain es where es: "edgesFromPoolMembers d = Inr es"
    and all2: "list_all2 (\<lambda>x e. edgeFromPoolMember x = Inr e) (allPoolMembers d) es"
    using edgesFromPoolMembers_total by blast
  from mem obtain i where i: "i < length (allPoolMembers d)" "allPoolMembers d ! i = x"
    by (auto simp: in_set_conv_nth)
  with all2 have e: "es ! i \<in> set es" "edgeFromPoolMember x = Inr (es ! i)"
    by (auto simp: list_all2_conv_all_nth)
  let ?a = "flowRate (member_pool x) * totalUnits (member_pool x)"
  have rate: "memberFlowRate x = Inr (if 0 \<le> ?a then ?a div units x else - ((- ?a) div units x))"
    using assms(2) by (simp add: memberFlowRate_def bigint_div_def sgn_if)
  note edgeFromPoolMember_rate[OF rate e(2)]
  with es e show ?thesis by blast
qed

theorem member_flow_rate_share_witness:
  "member50 \<in> set (poolMembers poolSnapshot)
                 \<union> (\<Union>p\<in>set (selectedPools poolSnapshot). set (selected_poolMembers p))
   \<and> 0 < units member50
   \<and> flowRate (member_pool member50) = 1000 \<and> totalUnits (member_pool member50) = 200
   \<and> units member50 = 50
   \<and> (\<exists>es e. edgesFromPoolMembers poolSnapshot = Inr es \<and> e \<in> set es
         \<and> edgeFromPoolMember member50 = Inr e \<and> data_flowRate e = 4000)"
proof -
  have h: "member50 \<in> set (poolMembers poolSnapshot)
                 \<union> (\<Union>p\<in>set (selectedPools poolSnapshot). set (selected_poolMembers p))"
    by (simp add: poolSnapshot_def emptySnapshot_def)
  have v: "flowRate (member_pool member50) = 1000" "totalUnits (member_pool member50) = 200"
    "units member50 = 50"
    by (simp_all add: member50_def poolP_def)
  have u: "0 < units member50" by (simp add: v)
  from member_flow_rate_share[OF h u]
  have "\<exists>es e. edgesFromPoolMembers poolSnapshot = Inr es \<and> e \<in> set es
         \<and> edgeFromPoolMember member50 = Inr e \<and> data_flowRate e = 4000"
    by (simp add: v) blast
  with h u v show ?thesis by blast
qed

text \<open>
  C9. A membership with zero units yields an edge of flow rate 0 whatever the pool's flow
  rate and total units are, and the flow rate of no membership is the RangeError of a
  division by zero: the division runs only behind the guard.
\<close>

theorem zero_unit_guard:
  assumes "units x = 0"
  shows "(\<exists>e. edgeFromPoolMember x = Inr e \<and> data_flowRate e = 0)
       \<and> (\<forall>y. memberFlowRate y \<noteq> Inl RangeError)"
proof
  from assms have "memberFlowRate x = Inr 0" by (simp add: memberFlowRate_def)
  then show "\<exists>e. edgeFromPoolMember x = Inr e \<and> data_flowRate e = 0"
    by (simp add: edgeFromPoolMember_def)
  show "\<forall>y. memberFlowRate y \<noteq> Inl RangeError"
    by (simp add: memberFlowRate_def bigint_div_def)
qed

theorem zero_unit_guard_witness:
  "units member0 = 0
   \<and> (\<exists>e. edgeFromPoolMember member0 = Inr e \<and> data_flowRate e = 0)
   \<and> memberFlowRate member0 \<noteq> Inl RangeError"
proof -
  have u: "units member0 = 0" by (simp add: member0_def)
  from zero_unit_guard[OF u] u show ?thesis by blast
qed

text \<open>
  C5. The edge builder always returns. Its output edges have pairwise different ids, the
  ids are those of the raw candidates, and the flow rate of each output edge is the integer
  sum of the flow rates of all raw candidates (memberships, streams, distributorships)
  with its id.
\<close>

theorem edge_flow_conservation:
  "\<exists>raw es. edgesButRedundant d = Inr raw \<and> mapEdges d = Inr es
     \<and> distinct (map edge_id es) \<and> edge_id ` set es = edge_id ` set raw
     \<and> (\<forall>e\<in>set es. data_flowRate e
            = sum_list (map data_flowRate (filter (\<lambda>c. edge_id c = edge_id e) raw)))"
proof -
  obtain raw where raw: "edgesButRedundant d = Inr raw" using edgesButRedundant_total by blast
  from uniqEdges_total[OF raw] obtain us where us: "uniqEdges d = Inr us" by blast
  let ?es = "map (parallelEdge us) us"
  have es: "mapEdges d = Inr ?es" by (rule mapEdges_char[OF us])
  have ids: "map edge_id ?es = map edge_id us" by (simp add: parallelEdge_fields)
  have "distinct (map edge_id ?es)"
    by (simp only: ids uniqEdges_distinct[OF raw us])
  moreover have "edge_id ` set ?es = edge_id ` set raw"
  proof -
    have "set (map edge_id ?es) = edge_id ` set raw"
      by (simp only: ids uniqEdges_ids[OF raw us] groupBy_keys)
    then show ?thesis by (simp only: set_map)
  qed
  moreover have "\<forall>e\<in>set ?es. data_flowRate e
            = sum_list (map data_flowRate (filter (\<lambda>c. edge_id c = edge_id e) raw))"
  proof
    fix e assume "e \<in> set ?es"
    then obtain u where u: "u \<in> set us" "e = parallelEdge us u" by auto
    from uniqEdges_edge_group[OF raw us u(1)]
    have "data_flowRate u = sum_list (map data_flowRate (filter (\<lambda>c. edge_id c = edge_id u) raw))"
      by (simp add: merged_edge_from_def)
    with u(2) show "data_flowRate e
            = sum_list (map data_flowRate (filter (\<lambda>c. edge_id c = edge_id e) raw))"
      by (simp add: parallelEdge_fields)
  qed
  ultimately show ?thesis using raw es by blast
qed

theorem edge_flow_conservation_witness:
  "edgesButRedundant poolSnapshot = Inr poolRaw \<and> mapEdges poolSnapshot = Inr poolEdges
   \<and> hd poolEdges \<in> set poolEdges
   \<and> map data_flowRate (filter (\<lambda>c. edge_id c = edge_id (hd poolEdges)) poolRaw) = [4000, 4000]
   \<and> data_flowRate (hd poolEdges) = 8000"
proof -
  have m: "hd poolEdges \<in> set poolEdges" by (simp add: poolEdges_def)
  have f: "map data_flowRate (filter (\<lambda>c. edge_id c = edge_id (hd poolEdges)) poolRaw)
             = [4000, 4000]"
    by (simp add: poolEdges_def poolRaw_def)
  from edge_flow_conservation[of poolSnapshot] m
  have "data_flowRate (hd poolEdges)
          = sum_list (map data_flowRate (filter (\<lambda>c. edge_id c = edge_id (hd poolEdges)) poolRaw))"
    by (auto simp: edgesButRedundant_pool mapEdges_pool)
  with f have "data_flowRate (hd poolEdges) = 8000" by simp
  with m f edgesButRedundant_pool mapEdges_pool show ?thesis by simp
qed

text \<open>
  C6. Ids are addresses, so they contain no hyphen. Then for every output edge: its
  \<open>length\<close> is the number of output edges with the same unordered endpoint pair, its
  \<open>index\<close> lies in \<open>[0, length)\<close>, and no other output edge with the same unordered
  pair has the same index.
\<close>

theorem parallel_edge_metadata:
  assumes "mapEdges d = Inr es" and "\<forall>i\<in>relationIds d. CHR ''-'' \<notin> set i"
  shows "\<forall>e\<in>set es.
      something_length e
        = int (length (filter (\<lambda>e'. {source e', target e'} = {source e, target e}) es))
    \<and> 0 \<le> something_index e \<and> something_index e < something_length e
    \<and> (\<forall>e'\<in>set es. {source e', target e'} = {source e, target e}
          \<longrightarrow> something_index e' = something_index e \<longrightarrow> e' = e)"
proof
  fix e assume e: "e \<in> set es"
  obtain raw where raw: "edgesButRedundant d = Inr raw" using edgesButRedundant_total by blast
  from uniqEdges_total[OF raw] obtain us where us: "uniqEdges d = Inr us" by blast
  from mapEdges_char[OF us] assms(1) have es: "es = map (parallelEdge us) us" by simp
  have free: "CHR ''-'' \<notin> set (source u) \<and> CHR ''-'' \<notin> set (target u)" if "u \<in> set us" for u
    using uniqEdges_endpoints[OF us that] assms(2) by blast
  have key: "pairKey u = pairKey v \<longleftrightarrow> {source u, target u} = {source v, target v}"
    if "u \<in> set us" "v \<in> set us" for u v
    using free[OF that(1)] free[OF that(2)] by (simp add: pairKey_eq_iff)
  from e es obtain x where x: "x \<in> set us" "e = parallelEdge us x" by auto
  let ?g = "filter (\<lambda>y. pairKey y = pairKey x) us"
  have xg: "x \<in> set ?g" using x(1) by simp
  have same: "filter (\<lambda>y. {source y, target y} = {source x, target x}) us = ?g"
    by (rule filter_cong[OF refl]) (simp add: key[OF _ x(1)])
  have "filter (\<lambda>e'. {source e', target e'} = {source e, target e}) es
          = map (parallelEdge us) (filter (\<lambda>y. {source y, target y} = {source x, target x}) us)"
    by (simp add: es x(2) filter_map comp_def parallelEdge_fields)
  then have len: "something_length e
        = int (length (filter (\<lambda>e'. {source e', target e'} = {source e, target e}) es))"
    by (simp add: same x(2) parallelEdge_fields)
  from indexOf_mem[OF xg]
  have idx: "0 \<le> something_index e" "something_index e < something_length e"
    "?g ! nat (something_index e) = x"
    by (simp_all add: x(2) parallelEdge_fields)
  have uniq: "\<forall>e'\<in>set es. {source e', target e'} = {source e, target e}
          \<longrightarrow> something_index e' = something_index e \<longrightarrow> e' = e"
  proof (intro ballI impI)
    fix e' assume e': "e' \<in> set es" "{source e', target e'} = {source e, target e}"
      "something_index e' = something_index e"
    from e'(1) es obtain y where y: "y \<in> set us" "e' = parallelEdge us y" by auto
    from e'(2) have "{source y, target y} = {source x, target x}"
      by (simp add: x(2) y(2) parallelEdge_fields)
    then have k: "pairKey y = pairKey x" by (simp add: key[OF y(1) x(1)])
    then have yg: "y \<in> set ?g" using y(1) by simp
    from indexOf_mem[OF yg] have "?g ! nat (something_index e') = y"
      by (simp add: y(2) parallelEdge_fields k)
    with idx(3) e'(3) have "y = x" by simp
    with x(2) y(2) show "e' = e" by simp
  qed
  from len idx(1,2) uniq
  show "something_length e
        = int (length (filter (\<lambda>e'. {source e', target e'} = {source e, target e}) es))
    \<and> 0 \<le> something_index e \<and> something_index e < something_length e
    \<and> (\<forall>e'\<in>set es. {source e', target e'} = {source e, target e}
          \<longrightarrow> something_index e' = something_index e \<longrightarrow> e' = e)"
    by blast
qed

theorem parallel_edge_metadata_witness:
  "mapEdges twoStreams = Inr twoStreamsEdges
   \<and> relationIds twoStreams = {''0xa'', ''0xb''}
   \<and> CHR ''-'' \<notin> set ''0xa'' \<and> CHR ''-'' \<notin> set ''0xb''
   \<and> map edge_id twoStreamsEdges = [''0xt-0xa-0xb'', ''0xt-0xb-0xa'']
   \<and> map something_length twoStreamsEdges = [2, 2]
   \<and> map something_index twoStreamsEdges = [0, 1]
   \<and> hd twoStreamsEdges \<in> set twoStreamsEdges
   \<and> something_length (hd twoStreamsEdges)
       = int (length (filter (\<lambda>e'. {source e', target e'}
                 = {source (hd twoStreamsEdges), target (hd twoStreamsEdges)}) twoStreamsEdges))
   \<and> 0 \<le> something_index (hd twoStreamsEdges)
   \<and> something_index (hd twoStreamsEdges) < something_length (hd twoStreamsEdges)"
proof -
  have free: "\<forall>i\<in>relationIds twoStreams. CHR ''-'' \<notin> set i"
    by (simp add: relationIds_twoStreams)
  have v: "map edge_id twoStreamsEdges = [''0xt-0xa-0xb'', ''0xt-0xb-0xa'']"
    "map something_length twoStreamsEdges = [2, 2]"
    "map something_index twoStreamsEdges = [0, 1]"
    "hd twoStreamsEdges \<in> set twoStreamsEdges"
    by (simp_all add: twoStreamsEdges_def)
  from parallel_edge_metadata[OF mapEdges_twoStreams free] v(4)
  have "something_length (hd twoStreamsEdges)
       = int (length (filter (\<lambda>e'. {source e', target e'}
                 = {source (hd twoStreamsEdges), target (hd twoStreamsEdges)}) twoStreamsEdges))
   \<and> 0 \<le> something_index (hd twoStreamsEdges)
   \<and> something_index (hd twoStreamsEdges) < something_length (hd twoStreamsEdges)"
    by blast
  with v mapEdges_twoStreams relationIds_twoStreams show ?thesis by simp
qed

text \<open>
  C10. When both builders return, the source and the target of every output edge are ids of
  output nodes.
\<close>

theorem no_dangling_edges:
  assumes "mapNodes getAddress shortenHex chain d = Inr ns" "mapEdges d = Inr es"
  shows "\<forall>e\<in>set es. source e \<in> node_id ` set ns \<and> target e \<in> node_id ` set ns"
proof
  fix e assume e: "e \<in> set es"
  have ids: "node_id ` set ns = relationIds d"
  proof -
    have "set (map node_id ns) = relationIds d"
      by (simp only: mapNodes_ids[OF assms(1)] groupBy_keys nodesButRedundant_ids)
    then show ?thesis by simp
  qed
  obtain raw where raw: "edgesButRedundant d = Inr raw" using edgesButRedundant_total by blast
  from uniqEdges_total[OF raw] obtain us where us: "uniqEdges d = Inr us" by blast
  from mapEdges_char[OF us] assms(2) have "es = map (parallelEdge us) us" by simp
  with e obtain u where u: "u \<in> set us" "e = parallelEdge us u" by auto
  from uniqEdges_endpoints[OF us u(1)] u(2) ids
  show "source e \<in> node_id ` set ns \<and> target e \<in> node_id ` set ns"
    by (simp add: parallelEdge_fields)
qed

theorem no_dangling_edges_witness:
  "mapNodes Some id 1 mixedSnapshot = Inr mixedNodes
   \<and> mapEdges mixedSnapshot = Inr mixedEdges
   \<and> hd mixedEdges \<in> set mixedEdges
   \<and> source (hd mixedEdges) \<in> node_id ` set mixedNodes
   \<and> target (hd mixedEdges) \<in> node_id ` set mixedNodes"
proof -
  have m: "hd mixedEdges \<in> set mixedEdges" by (simp add: mixedEdges_def)
  from no_dangling_edges[OF mapNodes_mixed mapEdges_mixed] m
  have "source (hd mixedEdges) \<in> node_id ` set mixedNodes
      \<and> target (hd mixedEdges) \<in> node_id ` set mixedNodes" by blast
  with m mapNodes_mixed mapEdges_mixed show ?thesis by blast
qed

section \<open>Properties of the mapper\<close>

text \<open>
  C3 as claimed: a snapshot without head-block metadata still maps to a result, with
  \<open>latestBlock\<close> left out. It does not. The two streams below run between addresses
  that \<open>getAddress\<close> accepts, so the node builder returns, the edge builder returns, and
  the read of \<open>_meta.block\<close> then raises a TypeError.
\<close>

theorem missing_meta_counterexample:
  "meta streamsNoMeta = None
   \<and> hexAddress address1 = Some address1 \<and> hexAddress address2 = Some address2
   \<and> dataMapper hexAddress id 1 streamsNoMeta = Inl TypeError"
proof (intro conjI)
  show "meta streamsNoMeta = None" by (simp add: streamsNoMeta_def)
  show "hexAddress address1 = Some address1" by code_simp
  show "hexAddress address2 = Some address2" by code_simp
  show "dataMapper hexAddress id 1 streamsNoMeta = Inl TypeError" by code_simp
qed

text \<open>
  C3 as amended. For every snapshot without head-block metadata the mapper returns no
  result: an error of the node builder or of the edge builder is passed on, and when both
  builders return, the read of \<open>_meta.block\<close> raises a TypeError.
\<close>

theorem dataMapper_without_meta_fails:
  assumes "meta d = None"
  shows "dataMapper getAddress shortenHex chain d
           = (case mapNodes getAddress shortenHex chain d of
                Inl e \<Rightarrow> Inl e
              | Inr ns \<Rightarrow> (case mapEdges d of Inl e \<Rightarrow> Inl e | Inr es \<Rightarrow> Inl TypeError))
       \<and> (\<forall>r. dataMapper getAddress shortenHex chain d \<noteq> Inr r)"
  using assms by (simp add: dataMapper_def split: sum.splits)

theorem dataMapper_without_meta_fails_witness:
  "meta membershipNoMeta = None
   \<and> hexAddress address3 = Some address3 \<and> hexAddress address1 = Some address1
   \<and> dataMapper hexAddress id 1 membershipNoMeta = Inl TypeError"
proof -
  have h: "meta membershipNoMeta = None" by (simp add: membershipNoMeta_def)
  have a: "hexAddress address3 = Some address3" "hexAddress address1 = Some address1"
    by code_simp+
  have b: "(case mapNodes hexAddress id 1 membershipNoMeta of
              Inl e \<Rightarrow> Inl e
            | Inr ns \<Rightarrow> (case mapEdges membershipNoMeta of
                          Inl e \<Rightarrow> Inl e
                        | Inr es \<Rightarrow> Inl TypeError))
           = (Inl TypeError :: error + myMappedData)"
    by code_simp
  from dataMapper_without_meta_fails[OF h, of hexAddress id 1] b
  have "dataMapper hexAddress id 1 membershipNoMeta = Inl TypeError" by simp
  with h a show ?thesis by simp
qed

end
